theory Spec2Isabelle
  imports Complex_Main
begin

section \<open>Encoder-decoder transformer speech model: embedding of transformer\_bpe\_models.py\<close>

text \<open>
  The development follows \<^verbatim>\<open>nemo/collections/asr/models/transformer_bpe_models.py\<close>.
  Tensors of the acoustic pipeline are opaque values; length vectors are lists of integers,
  token matrices are lists of rows, Python strings are \<^typ>\<open>string\<close> (one \<^typ>\<open>char\<close> per
  code point below 256), Python floats are exact reals (rounding is not modelled), and
  every \<^verbatim>\<open>raise\<close> of the source is an \<open>Inl\<close> value.
\<close>

subsection \<open>Exceptions\<close>

datatype error =
    ValueError
  | NameError
  | ZeroDivisionError
  | IndexError
  | TypeError
  | AttributeError
  | External string \<comment> \<open>an exception raised inside a collaborator (data loading, beam search)\<close>

subsection \<open>Length-to-mask utility\<close>

text \<open>
  \<^verbatim>\<open>torch.arange(max_length).repeat(batch_size, 1) < lens[:, None]\<close>: row \<open>i\<close> compares the
  positions \<open>0, \<dots>, max_length - 1\<close> with \<open>lens[i]\<close>.
\<close>

definition lens_to_mask :: "int list \<Rightarrow> nat \<Rightarrow> bool list list" where
  "lens_to_mask lens max_length =
     map (\<lambda>l. map (\<lambda>t. int t < l) [0..<max_length]) lens"

subsection \<open>Decoder vocabulary size\<close>

text \<open>
  \<^verbatim>\<open>vocab_size = 8 * ceil(self.tokenizer.vocab_size / 8)\<close>. The true division yields a
  float. For a vocabulary size of absolute value below \<open>2 ^ 53\<close> the size and its quotient
  by the power of two 8 are floats, so the float quotient is the exact quotient, which the
  definition takes in the reals. From \<open>2 ^ 53\<close> on the float quotient is rounded and the
  definition does not follow the source; the properties are stated below that bound.
\<close>

definition decoder_vocab_size :: "int \<Rightarrow> int" where
  "decoder_vocab_size tokenizer_vocab_size = 8 * \<lceil>real_of_int tokenizer_vocab_size / 8\<rceil>"

subsection \<open>Stripping special tokens\<close>

text \<open>
  \<^verbatim>\<open>re.sub(r'<[^>]+>', '', text)\<close> scans the text from the left. At a \<^verbatim>\<open><\<close> the rest of the
  pattern, \<^verbatim>\<open>[^>]+>\<close>, is tried on the following characters: the greedy class takes the
  longest run of characters other than \<^verbatim>\<open>>\<close>, which has to be non-empty and followed by
  \<^verbatim>\<open>>\<close> (giving characters back cannot help, the character after a shorter run is not
  \<^verbatim>\<open>>\<close>). \<open>match_token\<close> returns what follows the match. A match is deleted and the scan
  goes on behind it; where nothing matches the character is kept.
\<close>

definition match_token :: "string \<Rightarrow> string option" where
  "match_token cs =
     (let body = takeWhile (\<lambda>c. c \<noteq> CHR ''>'') cs;
          rest = dropWhile (\<lambda>c. c \<noteq> CHR ''>'') cs
      in if body \<noteq> [] \<and> rest \<noteq> [] then Some (tl rest) else None)"

lemma match_token_shorter:
  assumes "match_token cs = Some rest"
  shows "length rest < Suc (length cs)"
proof -
  from assms have "rest = tl (dropWhile (\<lambda>c. c \<noteq> CHR ''>'') cs)"
    by (simp add: match_token_def Let_def split: if_splits)
  moreover have "length (dropWhile (\<lambda>c. c \<noteq> CHR ''>'') cs) \<le> length cs"
    by (rule length_dropWhile_le)
  ultimately show ?thesis by simp
qed

function strip_special_tokens :: "string \<Rightarrow> string" where
  "strip_special_tokens [] = []"
| "strip_special_tokens (c # cs) =
     (if c = CHR ''<'' then
        (case match_token cs of
           Some rest \<Rightarrow> strip_special_tokens rest
         | None \<Rightarrow> c # strip_special_tokens cs)
      else c # strip_special_tokens cs)"
  by pat_completeness auto
termination
  by (relation "measure length") (auto dest: match_token_shorter)

text \<open>\<^verbatim>\<open>re.search(r'<[^>]+>', text) is not None\<close>: some position starts a match.\<close>

fun has_special_token :: "string \<Rightarrow> bool" where
  "has_special_token [] = False"
| "has_special_token (c # cs) =
     ((c = CHR ''<'' \<and> match_token cs \<noteq> None) \<or> has_special_token cs)"

subsection \<open>Python string helpers\<close>

text \<open>
  \<^verbatim>\<open>str.strip()\<close> and \<^verbatim>\<open>str.split()\<close> without arguments use the same whitespace test as
  \<^verbatim>\<open>str.isspace\<close>; below code point 256 these are 9 to 13, 28 to 32, 133 and 160.
\<close>

definition isspace :: "char \<Rightarrow> bool" where
  "isspace c =
     (let n = (of_char c :: nat)
      in (9 \<le> n \<and> n \<le> 13) \<or> (28 \<le> n \<and> n \<le> 32) \<or> n = 133 \<or> n = 160)"

definition py_strip :: "string \<Rightarrow> string" where
  "py_strip s = rev (dropWhile isspace (rev (dropWhile isspace s)))"

text \<open>
  \<^verbatim>\<open>s.split()\<close>: maximal runs of non-whitespace characters, in order; \<open>cur\<close> is the word
  being read.
\<close>

fun split_words :: "string \<Rightarrow> string \<Rightarrow> string list" where
  "split_words cur [] = (if cur = [] then [] else [cur])"
| "split_words cur (c # cs) =
     (if isspace c then (if cur = [] then split_words [] cs else cur # split_words [] cs)
      else split_words (cur @ [c]) cs)"

definition py_split :: "string \<Rightarrow> string list" where
  "py_split s = split_words [] s"

text \<open>
  \<^verbatim>\<open>editdistance.eval\<close> of the third-party package: the Levenshtein distance of two
  sequences. The aggregator takes the distance function as a parameter; this definition is the
  one used on concrete inputs.
\<close>

fun editdistance_eval :: "'a list \<Rightarrow> 'a list \<Rightarrow> nat" where
  "editdistance_eval [] ys = length ys"
| "editdistance_eval (x # xs) [] = Suc (length xs)"
| "editdistance_eval (x # xs) (y # ys) =
     min (min (Suc (editdistance_eval xs (y # ys))) (Suc (editdistance_eval (x # xs) ys)))
         (editdistance_eval xs ys + (if x = y then 0 else 1))"

subsection \<open>Evaluation aggregator: multi\_validation\_epoch\_end\<close>

text \<open>
  One \<open>step_output\<close> is the dictionary returned by \<^verbatim>\<open>validation_step\<close>; the field
  \<open>translations_list\<close> is the entry \<^verbatim>\<open>'translations'\<close>. The argument \<^verbatim>\<open>outputs\<close> of
  \<^verbatim>\<open>multi_validation_epoch_end\<close> is the list of the step dictionaries of one data loader
  (the case \<^verbatim>\<open>isinstance(outputs[0], dict)\<close>, in which the loop
  \<^verbatim>\<open>for output in outputs\<close> runs once, with \<^verbatim>\<open>output\<close> the whole list). The argument
  \<open>outs\<close> lists, in rank order, the \<^verbatim>\<open>outputs\<close> of every worker: the collective exchanges
  what each of them computes from its own entry, and the worker running the code is
  \<open>outs ! global_rank\<close>. A worker without outputs returns at the guard
  \<^verbatim>\<open>if not outputs: return\<close>: it logs nothing and does not take part in the collective,
  which the other workers then wait for; the properties are stated for workers that all have
  outputs. The loss metric (\<^verbatim>\<open>val_loss.compute()\<close>, \<^verbatim>\<open>val_loss.reset()\<close>) is not part of
  the embedding.
\<close>

record step_output =
  loss :: real
  translations_list :: "string list"
  ground_truths :: "string list"

type_synonym pair = "string \<times> string"

text \<open>
  \<^verbatim>\<open>zip(translations, ground_truths)\<close> of the two flattened lists
  (\<^verbatim>\<open>list(itertools.chain(*[x['translations'] for x in output]))\<close>).
\<close>

definition all_pairs :: "step_output list \<Rightarrow> pair list" where
  "all_pairs output =
     zip (concat (map translations_list output)) (concat (map ground_truths output))"

text \<open>\<^verbatim>\<open>[(t, g) for (t, g) in zip(translations, ground_truths) if g.strip() != '']\<close>\<close>

definition nonempty_pairs :: "step_output list \<Rightarrow> pair list" where
  "nonempty_pairs output = filter (\<lambda>(t, g). py_strip g \<noteq> []) (all_pairs output)"

text \<open>
  \<^verbatim>\<open>dist.all_gather_object(tr_and_gt, obj)\<close>: slot \<open>r\<close> of the result holds the object that
  rank \<open>r\<close> passed; \<open>objs\<close> lists these objects in rank order.
\<close>

definition all_gather_object :: "'a list \<Rightarrow> 'a option list" where
  "all_gather_object objs = map Some objs"

text \<open>
  The list \<^verbatim>\<open>tr_and_gt\<close> starts as \<^verbatim>\<open>[None for _ in range(self.world_size)]\<close>. With more
  than one worker it is filled by the collective, otherwise slot 0 is assigned (an
  \<^verbatim>\<open>IndexError\<close> if the list were empty).
\<close>

definition gather_pairs ::
  "nat \<Rightarrow> nat \<Rightarrow> step_output list list \<Rightarrow> error + pair list option list" where
  "gather_pairs world_size global_rank outs =
     (let tr_and_gt = replicate world_size None
      in if world_size > 1 then Inr (all_gather_object (map nonempty_pairs outs))
         else if world_size = 0 then Inl IndexError
         else Inr (tr_and_gt [0 := Some (nonempty_pairs (outs ! global_rank))]))"

text \<open>
  \<^verbatim>\<open>for rank in range(0, self.world_size)\<close>: both accumulators are extended with the
  components of \<^verbatim>\<open>tr_and_gt[rank]\<close>; iterating a slot that is still \<^verbatim>\<open>None\<close> is a
  \<^verbatim>\<open>TypeError\<close>.
\<close>

fun merge_ranks ::
  "pair list option list \<Rightarrow> nat list \<Rightarrow> string list \<times> string list \<Rightarrow>
   error + string list \<times> string list" where
  "merge_ranks tr_and_gt [] acc = Inr acc"
| "merge_ranks tr_and_gt (rank # ranks) (trs, gts) =
     (if rank < length tr_and_gt then
        (case tr_and_gt ! rank of
           None \<Rightarrow> Inl TypeError
         | Some ps \<Rightarrow> merge_ranks tr_and_gt ranks (trs @ map fst ps, gts @ map snd ps))
      else Inl IndexError)"

text \<open>
  \<^verbatim>\<open>for h, r in zip(_translations, _ground_truths)\<close> with the two counters
  \<^verbatim>\<open>wer_scores\<close> and \<^verbatim>\<open>wer_words\<close>.
\<close>

fun wer_loop ::
  "(string list \<Rightarrow> string list \<Rightarrow> nat) \<Rightarrow> pair list \<Rightarrow> nat \<times> nat \<Rightarrow> nat \<times> nat" where
  "wer_loop ed [] acc = acc"
| "wer_loop ed ((h, r) # rest) (wer_scores, wer_words) =
     wer_loop ed rest
       (wer_scores + ed (py_split h) (py_split r), wer_words + length (py_split r))"

text \<open>
  \<^verbatim>\<open>multi_validation_epoch_end\<close>: \<open>None\<close> is the return at the guard, where nothing is
  logged, and \<open>Some (sb_score, wer_score)\<close> the pair of metrics that the worker logs.
  \<open>corpus_bleu\<close> stands for
  \<^verbatim>\<open>corpus_bleu(_translations, [_ground_truths], tokenize="13a").score\<close> of sacrebleu, which
  may raise, and \<open>ed\<close> for \<^verbatim>\<open>editdistance.eval\<close>. The division
  \<^verbatim>\<open>1.0 * wer_scores * self.world_size / wer_words\<close> raises \<^verbatim>\<open>ZeroDivisionError\<close> when no
  reference word was counted.
\<close>

definition multi_validation_epoch_end ::
  "(string list \<Rightarrow> string list \<Rightarrow> error + real) \<Rightarrow> (string list \<Rightarrow> string list \<Rightarrow> nat) \<Rightarrow>
   nat \<Rightarrow> nat \<Rightarrow> step_output list list \<Rightarrow> error + (real \<times> real) option" where
  "multi_validation_epoch_end corpus_bleu ed world_size global_rank outs =
     (let outputs = outs ! global_rank
      in if outputs = [] then Inr None
         else
           (case gather_pairs world_size global_rank outs of
              Inl e \<Rightarrow> Inl e
            | Inr tr_and_gt \<Rightarrow>
                if global_rank = 0 then
                  (case merge_ranks tr_and_gt [0..<world_size] ([], []) of
                     Inl e \<Rightarrow> Inl e
                   | Inr (trs, gts) \<Rightarrow>
                       (case corpus_bleu trs gts of
                          Inl e \<Rightarrow> Inl e
                        | Inr score \<Rightarrow>
                            (let sb_score = score * real world_size;
                                 (wer_scores, wer_words) = wer_loop ed (zip trs gts) (0, 0)
                             in if wer_words = 0 then Inl ZeroDivisionError
                                else Inr (Some (sb_score,
                                                1.0 * real wer_scores * real world_size /
                                                real wer_words)))))
                else Inr (Some (0.0, 0.0))))"

subsection \<open>Model state and submodules\<close>

text \<open>
  The attributes of the model that \<^verbatim>\<open>transcribe\<close> reads and writes: \<^verbatim>\<open>self.training\<close>,
  \<^verbatim>\<open>self.preprocessor.featurizer.dither\<close> and \<^verbatim>\<open>pad_to\<close>, the freeze state of the encoder
  and of the decoder, and the logging verbosity. \<^verbatim>\<open>self.eval()\<close> and
  \<^verbatim>\<open>self.train(mode=mode)\<close> set the training flag of the model; the training flags of its
  submodules are not part of the state.
\<close>

record model_state =
  training :: bool
  dither :: real
  pad_to :: int
  encoder_frozen :: bool
  decoder_frozen :: bool
  verbosity :: int

definition eval_mode :: "model_state \<Rightarrow> model_state" where
  "eval_mode st = st\<lparr>training := False\<rparr>"

definition train :: "bool \<Rightarrow> model_state \<Rightarrow> model_state" where
  "train mode st = st\<lparr>training := mode\<rparr>"

text \<open>
  Modelled from the spec: \<^verbatim>\<open>freeze()\<close> and \<^verbatim>\<open>unfreeze()\<close> of the encoder and the decoder
  are methods of the toolkit's module base class, which is not among the sources. The spec
  speaks of freezing the encoder and decoder parameters and of their freeze state: the state
  is one flag per module, set by \<open>freeze\<close> and cleared by \<open>unfreeze\<close>.
\<close>

definition encoder_freeze :: "model_state \<Rightarrow> model_state" where
  "encoder_freeze st = st\<lparr>encoder_frozen := True\<rparr>"

definition encoder_unfreeze :: "model_state \<Rightarrow> model_state" where
  "encoder_unfreeze st = st\<lparr>encoder_frozen := False\<rparr>"

definition transf_decoder_freeze :: "model_state \<Rightarrow> model_state" where
  "transf_decoder_freeze st = st\<lparr>decoder_frozen := True\<rparr>"

definition transf_decoder_unfreeze :: "model_state \<Rightarrow> model_state" where
  "transf_decoder_unfreeze st = st\<lparr>decoder_frozen := False\<rparr>"

text \<open>\<^verbatim>\<open>logging.WARNING\<close>\<close>

definition WARNING :: int where
  "WARNING = 30"

text \<open>
  The submodules and collaborators of the model, over an opaque tensor type \<open>'t\<close>. Masks are
  boolean matrices, token matrices are lists of rows. \<open>adapter\<close> includes the
  \<^verbatim>\<open>permute(0, 2, 1)\<close> in front of it, \<open>time_dim\<close> is \<^verbatim>\<open>enc_states.shape[1]\<close>,
  \<open>spec_augmentation\<close> is \<open>None\<close> when no augmentation is configured and \<open>transf_encoder\<close>
  is \<open>None\<close> when \<^verbatim>\<open>use_transf_encoder\<close> is false. \<open>load_batch\<close> is the temporary data
  loader producing the batch of a list of files, \<open>beam_search\<close> the sequence generator with
  its optional \<^verbatim>\<open>decoder_input_ids\<close>; both can raise. \<open>ids_to_text\<close> is the tokenizer.
\<close>

record 't modules =
  preprocessor :: "'t \<Rightarrow> int list \<Rightarrow> 't \<times> int list"
  spec_augmentation :: "('t \<Rightarrow> int list \<Rightarrow> 't) option"
  encoder :: "'t \<Rightarrow> int list \<Rightarrow> 't \<times> int list"
  adapter :: "'t \<Rightarrow> 't"
  time_dim :: "'t \<Rightarrow> nat"
  transf_encoder :: "('t \<Rightarrow> bool list list \<Rightarrow> 't) option"
  transf_decoder :: "int list list \<Rightarrow> bool list list \<Rightarrow> 't \<Rightarrow> bool list list \<Rightarrow> 't"
  log_softmax :: "'t \<Rightarrow> 't"
  transf_loss :: "'t option \<Rightarrow> int list list \<Rightarrow> real"
  beam_search :: "'t \<Rightarrow> bool list list \<Rightarrow> int list list option \<Rightarrow> error + int list list"
  ids_to_text :: "int list \<Rightarrow> string"
  load_batch :: "string list \<Rightarrow> error + 't \<times> int list"

subsection \<open>Forward pipeline\<close>

text \<open>\<^verbatim>\<open>transcript.shape[1]\<close> of a token matrix given by its rows.\<close>

definition shape1 :: "'a list list \<Rightarrow> nat" where
  "shape1 rows = (case rows of [] \<Rightarrow> 0 | row # _ \<Rightarrow> length row)"

text \<open>
  \<^verbatim>\<open>forward\<close>. Every argument defaults to \<^verbatim>\<open>None\<close>. The check of the two signal pairs is
  the first statement; a transcript without its length vector fails in \<^verbatim>\<open>lens_to_mask\<close>
  (\<^verbatim>\<open>None\<close> has no \<^verbatim>\<open>shape\<close>). The conversions of the masks to the element type of
  the states and the checks of the \<^verbatim>\<open>typecheck\<close> decorator are not part of the embedding.
\<close>

definition forward ::
  "'t modules \<Rightarrow> model_state \<Rightarrow> 't option \<Rightarrow> int list option \<Rightarrow> 't option \<Rightarrow> int list option \<Rightarrow>
   int list list option \<Rightarrow> int list option \<Rightarrow>
   error + 't option \<times> int list \<times> 't \<times> bool list list" where
  "forward m st input_signal input_signal_length processed_signal processed_signal_length
     transcript transcript_length =
     (let has_input_signal = (input_signal \<noteq> None \<and> input_signal_length \<noteq> None);
          has_processed_signal = (processed_signal \<noteq> None \<and> processed_signal_length \<noteq> None)
      in if (has_input_signal \<noteq> has_processed_signal) = False then Inl ValueError
         else
           (let (processed_signal, processed_signal_length) =
                  (if \<not> has_processed_signal
                   then preprocessor m (the input_signal) (the input_signal_length)
                   else (the processed_signal, the processed_signal_length));
                processed_signal =
                  (case spec_augmentation m of
                     Some augment \<Rightarrow>
                       if training st then augment processed_signal processed_signal_length
                       else processed_signal
                   | None \<Rightarrow> processed_signal);
                (encoded, encoded_len) = encoder m processed_signal processed_signal_length;
                enc_states = adapter m encoded;
                enc_mask = lens_to_mask encoded_len (time_dim m enc_states);
                enc_states =
                  (case transf_encoder m of
                     Some re_encode \<Rightarrow> re_encode enc_states enc_mask
                   | None \<Rightarrow> enc_states)
            in case transcript of
                 None \<Rightarrow> Inr (None, encoded_len, enc_states, enc_mask)
               | Some ids \<Rightarrow>
                   (case transcript_length of
                      None \<Rightarrow> Inl AttributeError
                    | Some lens \<Rightarrow>
                        (let dec_mask = lens_to_mask lens (shape1 ids);
                             dec_states = transf_decoder m ids dec_mask enc_states enc_mask
                         in Inr (Some (log_softmax m dec_states), encoded_len, enc_states,
                                 enc_mask)))))"

subsection \<open>Loss and validation step\<close>

text \<open>
  A batch \<^verbatim>\<open>(signal, signal_len, transcript, transcript_len)\<close>; \<open>dali_processed\<close> is
  \<^verbatim>\<open>isinstance(batch, DALIOutputs) and batch.has_processed_signal\<close>. The slices
  \<^verbatim>\<open>transcript[:, :-1]\<close> and \<^verbatim>\<open>transcript[:, 1:]\<close> drop the last and the first column.
\<close>

record 't batch =
  signal :: 't
  signal_len :: "int list"
  transcript :: "int list list"
  transcript_len :: "int list"
  dali_processed :: bool

definition compute_audio_loss :: "'t modules \<Rightarrow> model_state \<Rightarrow> 't batch option \<Rightarrow> error + real" where
  "compute_audio_loss m st batch =
     (case batch of
        None \<Rightarrow> Inr 0
      | Some b \<Rightarrow>
          (let input_ids = map butlast (transcript b);
               labels = map tl (transcript b)
           in case forward m st (Some (signal b)) (Some (signal_len b)) None None
                     (Some input_ids) (Some (transcript_len b)) of
                Inl e \<Rightarrow> Inl e
              | Inr (transf_log_probs, encoded_len, enc_states, enc_mask) \<Rightarrow>
                  Inr (transf_loss m transf_log_probs labels)))"

text \<open>
  \<^verbatim>\<open>validation_step\<close> up to the returned dictionary. Updating the running loss metric and
  appending the dictionary to \<^verbatim>\<open>validation_step_outputs\<close> are not part of the embedding.
\<close>

definition validation_step :: "'t modules \<Rightarrow> model_state \<Rightarrow> 't batch \<Rightarrow> error + step_output" where
  "validation_step m st b =
     (let input_ids = map butlast (transcript b);
          labels = map tl (transcript b);
          outputs =
            (if dali_processed b
             then forward m st None None (Some (signal b)) (Some (signal_len b))
                    (Some input_ids) (Some (transcript_len b))
             else forward m st (Some (signal b)) (Some (signal_len b)) None None
                    (Some input_ids) (Some (transcript_len b)))
      in case outputs of
           Inl e \<Rightarrow> Inl e
         | Inr (transf_log_probs, encoded_len, enc_states, enc_mask) \<Rightarrow>
             (let num_context_tokens_for_decoding = (5::nat)
              in case beam_search m enc_states enc_mask
                        (if num_context_tokens_for_decoding > 0
                         then Some (map (take num_context_tokens_for_decoding) input_ids)
                         else None) of
                   Inl e \<Rightarrow> Inl e
                 | Inr beam_hypotheses \<Rightarrow>
                     (let loss_value = transf_loss m transf_log_probs labels;
                          truths = map (ids_to_text m) (transcript b);
                          translations = map (ids_to_text m) beam_hypotheses
                      in Inr \<lparr>loss = loss_value,
                              translations_list = map strip_special_tokens translations,
                              ground_truths = map strip_special_tokens truths\<rparr>)))"

subsection \<open>Transcription\<close>

text \<open>
  Modelled from the spec: the dataset behind the temporary data loader is built by a factory
  that is not among the sources. By the spec the factory returns batches for the manifest,
  which lists the files in input order, and there is one result per input file, in input
  order; the loader is created without shuffling and without dropping the last batch, so it
  visits the files in consecutive batches.
\<close>

function batches :: "nat \<Rightarrow> 'a list \<Rightarrow> 'a list list" where
  "batches n xs = (if n = 0 \<or> xs = [] then [] else take n xs # batches n (drop n xs))"
  by pat_completeness auto
termination
  by (relation "measure (\<lambda>(n, xs). length xs)") auto

declare batches.simps [simp del]

text \<open>
  \<^verbatim>\<open>_setup_transcribe_dataloader\<close> passes on
  \<^verbatim>\<open>batch_size = min(config['batch_size'], len(config['paths2audio_files']))\<close>. The
  loader's constructor rejects a batch size that is not positive with a \<^verbatim>\<open>ValueError\<close>.
\<close>

definition setup_transcribe_dataloader :: "string list \<Rightarrow> int \<Rightarrow> error + string list list" where
  "setup_transcribe_dataloader paths2audio_files batch_size =
     (let batch_size = min batch_size (int (length paths2audio_files))
      in if batch_size \<le> 0 then Inl ValueError
         else Inr (batches (nat batch_size) paths2audio_files))"

text \<open>
  One pass of the loop body up to the beam hypotheses: the batch is loaded, \<^verbatim>\<open>forward\<close> is
  called with the raw signal pair only, and beam search runs without decoder inputs.
\<close>

definition decode_batch :: "'t modules \<Rightarrow> model_state \<Rightarrow> string list \<Rightarrow> error + int list list" where
  "decode_batch m st files =
     (case load_batch m files of
        Inl e \<Rightarrow> Inl e
      | Inr (input_signal, input_signal_length) \<Rightarrow>
          (case forward m st (Some input_signal) (Some input_signal_length) None None
                  None None of
             Inl e \<Rightarrow> Inl e
           | Inr (log_probs, encoded_len, enc_states, enc_mask) \<Rightarrow>
               beam_search m enc_states enc_mask None))"

text \<open>
  \<^verbatim>\<open>for test_batch in tqdm(temporary_datalayer)\<close>. With \<^verbatim>\<open>return_hypotheses\<close> the body
  reads the name \<^verbatim>\<open>logits\<close>, which is bound nowhere: a \<^verbatim>\<open>NameError\<close>.
\<close>

fun transcribe_loop ::
  "'t modules \<Rightarrow> model_state \<Rightarrow> bool \<Rightarrow> string list list \<Rightarrow> string list \<Rightarrow> error + string list" where
  "transcribe_loop m st return_hypotheses [] hypotheses = Inr hypotheses"
| "transcribe_loop m st return_hypotheses (test_batch # rest) hypotheses =
     (case decode_batch m st test_batch of
        Inl e \<Rightarrow> Inl e
      | Inr rows \<Rightarrow>
          (let beam_hypotheses = map (ids_to_text m) rows
           in if return_hypotheses then Inl NameError
              else transcribe_loop m st return_hypotheses rest (hypotheses @ beam_hypotheses)))"

text \<open>
  The first statements of the \<^verbatim>\<open>try\<close> block, up to the freezing of encoder and decoder.
\<close>

definition inference_setup :: "model_state \<Rightarrow> model_state" where
  "inference_setup st =
     (let st = st\<lparr>dither := 0.0\<rparr>;
          st = st\<lparr>pad_to := 0\<rparr>;
          st = eval_mode st;
          st = encoder_freeze st
      in transf_decoder_freeze st)"

text \<open>The rest of the \<^verbatim>\<open>try\<close> block: manifest, data loader and loop.\<close>

definition transcribe_body ::
  "'t modules \<Rightarrow> model_state \<Rightarrow> string list \<Rightarrow> int \<Rightarrow> bool \<Rightarrow> error + string list" where
  "transcribe_body m st paths2audio_files batch_size return_hypotheses =
     (case setup_transcribe_dataloader paths2audio_files batch_size of
        Inl e \<Rightarrow> Inl e
      | Inr temporary_datalayer \<Rightarrow>
          transcribe_loop m st return_hypotheses temporary_datalayer [])"

text \<open>The \<^verbatim>\<open>finally\<close> block.\<close>

definition transcribe_finally :: "bool \<Rightarrow> real \<Rightarrow> int \<Rightarrow> int \<Rightarrow> model_state \<Rightarrow> model_state" where
  "transcribe_finally mode dither_value pad_to_value logging_level st =
     (let st = train mode st;
          st = st\<lparr>dither := dither_value\<rparr>;
          st = st\<lparr>pad_to := pad_to_value\<rparr>;
          st = (if mode = True then transf_decoder_unfreeze (encoder_unfreeze st) else st)
      in st\<lparr>verbosity := logging_level\<rparr>)"

text \<open>
  \<^verbatim>\<open>transcribe\<close> returns \<^verbatim>\<open>{}\<close> for a missing or empty path list and the list
  \<^verbatim>\<open>hypotheses\<close> otherwise. The result comes with the state of the model after the call;
  an exception leaves through the \<^verbatim>\<open>finally\<close> block.
\<close>

datatype transcriptions = EmptyDict | Hypotheses "string list"

definition transcribe ::
  "'t modules \<Rightarrow> model_state \<Rightarrow> string list option \<Rightarrow> int \<Rightarrow> bool \<Rightarrow> bool \<Rightarrow>
   (error + transcriptions) \<times> model_state" where
  "transcribe m st paths2audio_files batch_size logprobs return_hypotheses =
     (case paths2audio_files of
        None \<Rightarrow> (Inr EmptyDict, st)
      | Some paths \<Rightarrow>
          if length paths = 0 then (Inr EmptyDict, st)
          else if return_hypotheses \<and> logprobs then (Inl ValueError, st)
          else
            (let mode = training st;
                 dither_value = dither st;
                 pad_to_value = pad_to st;
                 st = inference_setup st;
                 logging_level = verbosity st;
                 st = st\<lparr>verbosity := WARNING\<rparr>;
                 result = transcribe_body m st paths batch_size return_hypotheses;
                 st = transcribe_finally mode dither_value pad_to_value logging_level st
             in case result of
                  Inl e \<Rightarrow> (Inl e, st)
                | Inr hypotheses \<Rightarrow> (Inr (Hypotheses hypotheses), st)))"

definition translate ::
  "'t modules \<Rightarrow> model_state \<Rightarrow> string list option \<Rightarrow> int \<Rightarrow> bool \<Rightarrow> bool \<Rightarrow>
   (error + transcriptions) \<times> model_state" where
  "translate m st paths2audio_files batch_size logprobs return_hypotheses =
     transcribe m st paths2audio_files batch_size logprobs return_hypotheses"

subsection \<open>A concrete configuration\<close>

text \<open>
  A small configuration on which the definitions can be run: a tensor is the list of the
  files of its batch, beam search returns the row \<open>[1, 0]\<close> for every sample, and the
  tokenizer writes token 0 as \<^verbatim>\<open><pad>\<close> and every other token as \<^verbatim>\<open>ab\<close>. Loading a batch
  fails when it contains the file \<^verbatim>\<open>missing.wav\<close>.
\<close>

definition example_modules :: "string list modules" where
  "example_modules =
     \<lparr>preprocessor = (\<lambda>s l. (s, l)),
      spec_augmentation = None,
      encoder = (\<lambda>s l. (s, l)),
      adapter = (\<lambda>s. s),
      time_dim = (\<lambda>s. 2),
      transf_encoder = None,
      transf_decoder = (\<lambda>ids dec_mask s enc_mask. s),
      log_softmax = (\<lambda>s. s),
      transf_loss = (\<lambda>log_probs labels. real (length (concat labels))),
      beam_search = (\<lambda>s enc_mask ids. Inr (map (\<lambda>f. [1, 0]) s)),
      ids_to_text = (\<lambda>ids. concat (map (\<lambda>i. if i = 0 then ''<pad>'' else ''ab'') ids)),
      load_batch = (\<lambda>files. if ''missing.wav'' \<in> set files then Inl (External ''FileNotFoundError'')
                            else Inr (files, map (\<lambda>f. 16000) files))\<rparr>"

definition example_state :: model_state where
  "example_state =
     \<lparr>training = False, dither = 1 / 100000, pad_to = 16, encoder_frozen = False,
      decoder_frozen = False, verbosity = 20\<rparr>"

section \<open>Properties\<close>

subsection \<open>Length-to-mask utility\<close>

lemma count_below:
  "0 \<le> l \<Longrightarrow> int (length (filter (\<lambda>t. int t < l) [0..<T])) = min l (int T)"
  by (induction T) auto

lemma all_below: "int T \<le> l \<Longrightarrow> map (\<lambda>t. int t < l) [0..<T] = replicate T True"
  by (induction T) (auto simp: replicate_append_same)

lemma none_below: "l \<le> 0 \<Longrightarrow> map (\<lambda>t. int t < l) [0..<T] = replicate T False"
  by (induction T) (auto simp: replicate_append_same)

text \<open>
  Claim C6. For every length vector \<open>L\<close> and every maximal time \<open>T\<close> the mask has one row per
  entry of \<open>L\<close>, every row has \<open>T\<close> entries, entry \<open>(i, t)\<close> is true exactly when \<open>t < L[i]\<close>,
  the number of true entries of row \<open>i\<close> is \<open>min(L[i], T)\<close> (lengths are non-negative), a
  row with \<open>L[i] = 0\<close> is all false and a row with \<open>L[i] \<ge> T\<close> is all true. The function is
  total and pure: it has no error value and no state.
\<close>

theorem lens_to_mask_spec:
  "length (lens_to_mask L T) = length L \<and>
   (\<forall>i<length L.
      length (lens_to_mask L T ! i) = T \<and>
      (\<forall>t<T. lens_to_mask L T ! i ! t = (int t < L ! i)) \<and>
      (0 \<le> L ! i \<longrightarrow>
         int (length (filter (\<lambda>b. b) (lens_to_mask L T ! i))) = min (L ! i) (int T)) \<and>
      (L ! i = 0 \<longrightarrow> lens_to_mask L T ! i = replicate T False) \<and>
      (int T \<le> L ! i \<longrightarrow> lens_to_mask L T ! i = replicate T True))"
proof -
  have row: "lens_to_mask L T ! i = map (\<lambda>t. int t < L ! i) [0..<T]" if "i < length L" for i
    using that by (simp add: lens_to_mask_def)
  have cnt: "int (length (filter (\<lambda>b. b) (map (\<lambda>t. int t < l) [0..<T]))) = min l (int T)"
    if "0 \<le> l" for l
    using count_below [OF that, of T] by (simp add: filter_map o_def)
  have len: "length (lens_to_mask L T) = length L"
    by (simp add: lens_to_mask_def)
  have zero: "map (\<lambda>t. int t < l) [0..<T] = replicate T False" if "l = 0" for l
    using that none_below [of l T] by simp
  have "length (lens_to_mask L T ! i) = T \<and>
      (\<forall>t<T. lens_to_mask L T ! i ! t = (int t < L ! i)) \<and>
      (0 \<le> L ! i \<longrightarrow>
         int (length (filter (\<lambda>b. b) (lens_to_mask L T ! i))) = min (L ! i) (int T)) \<and>
      (L ! i = 0 \<longrightarrow> lens_to_mask L T ! i = replicate T False) \<and>
      (int T \<le> L ! i \<longrightarrow> lens_to_mask L T ! i = replicate T True)"
    if "i < length L" for i
    unfolding row [OF that] using cnt zero all_below by simp
  with len show ?thesis by blast
qed

theorem lens_to_mask_spec_witness:
  "lens_to_mask [0, 2, 5] 3 =
     [[False, False, False], [True, True, False], [True, True, True]] \<and>
   (0::int) \<le> [0, 2, 5] ! 1 \<and>
   int (length (filter (\<lambda>b. b) (lens_to_mask [0, 2, 5] 3 ! 1))) = min ([0, 2, 5] ! 1) (int 3)"
  using lens_to_mask_spec [of "[0, 2, 5]" 3]
  by (simp add: lens_to_mask_def upt_rec)

subsection \<open>Decoder vocabulary size\<close>

lemma ceiling_div_8: "\<lceil>real_of_int v / 8\<rceil> = - ((- v) div 8)"
  by (metis ceiling_divide_eq_div of_int_numeral)

text \<open>
  Claim C9. The decoder and log-softmax vocabulary size is the tokenizer's vocabulary size
  rounded up to a multiple of 8: it is a multiple of 8, it is not below the tokenizer's size,
  and no multiple of 8 that reaches the tokenizer's size is smaller. This is stated for
  sizes of absolute value below \<open>2 ^ 53\<close>, where the floating-point quotient of the source
  is the exact quotient.
\<close>

theorem decoder_vocab_size_spec:
  assumes "\<bar>v\<bar> < 2 ^ 53"
  shows "8 dvd decoder_vocab_size v \<and> v \<le> decoder_vocab_size v \<and>
         decoder_vocab_size v < v + 8 \<and>
         (\<forall>m. 8 dvd m \<and> v \<le> m \<longrightarrow> decoder_vocab_size v \<le> m)"
proof -
  let ?d = "decoder_vocab_size v"
  have d: "?d = 8 * (- ((- v) div 8))"
    by (simp add: decoder_vocab_size_def ceiling_div_8)
  have 1: "8 dvd ?d" unfolding d by simp
  have 2: "v \<le> ?d" unfolding d by presburger
  have 3: "?d < v + 8" unfolding d by presburger
  have 4: "?d \<le> m" if "8 dvd m" "v \<le> m" for m
    using that unfolding d by presburger
  from 1 2 3 4 show ?thesis by blast
qed

theorem decoder_vocab_size_spec_witness:
  "\<bar>1001 :: int\<bar> < 2 ^ 53 \<and> decoder_vocab_size 1001 = 1008 \<and> (8::int) dvd 1008 \<and>
   (1001::int) \<le> 1008"
proof -
  have h: "\<bar>1001 :: int\<bar> < 2 ^ 53" by simp
  from decoder_vocab_size_spec [OF h] h show ?thesis
    by (simp add: decoder_vocab_size_def)
qed

subsection \<open>Stripping special tokens\<close>

lemma set_match_token:
  assumes "match_token cs = Some rest"
  shows "set rest \<subseteq> set cs"
proof -
  from assms have "rest = tl (dropWhile (\<lambda>c. c \<noteq> CHR ''>'') cs)"
    by (simp add: match_token_def Let_def split: if_splits)
  then have "set rest \<subseteq> set (dropWhile (\<lambda>c. c \<noteq> CHR ''>'') cs)"
    by (metis list.set_sel(2) subsetI tl_Nil)
  then show ?thesis using set_dropWhileD by fastforce
qed

lemma set_strip_special_tokens: "set (strip_special_tokens s) \<subseteq> set s"
proof (induction s rule: strip_special_tokens.induct)
  case 1
  then show ?case by simp
next
  case (2 c cs)
  show ?case
  proof (cases "c = CHR ''<''")
    case False
    with 2 show ?thesis by auto
  next
    case True
    show ?thesis
    proof (cases "match_token cs")
      case None
      with True 2 show ?thesis by auto
    next
      case (Some rest)
      with True 2 set_match_token [OF Some] show ?thesis by auto
    qed
  qed
qed

text \<open>A \<^verbatim>\<open><\<close> that opens no token before stripping opens none afterwards.\<close>

lemma match_token_None_strip:
  assumes "match_token cs = None"
  shows "match_token (strip_special_tokens cs) = None"
proof (cases cs)
  case Nil
  then show ?thesis by (simp add: match_token_def)
next
  case (Cons d ds)
  show ?thesis
  proof (cases "d = CHR ''>''")
    case True
    with Cons show ?thesis by (simp add: match_token_def)
  next
    case False
    with assms Cons have "CHR ''>'' \<notin> set cs"
      by (simp add: match_token_def Let_def split: if_splits)
    then have "CHR ''>'' \<notin> set (strip_special_tokens cs)"
      using set_strip_special_tokens by blast
    then show ?thesis by (simp add: match_token_def)
  qed
qed

text \<open>
  Claim C8. Stripping special tokens is idempotent: stripping a stripped string changes
  nothing, for every string.
\<close>

theorem strip_special_tokens_idempotent:
  "strip_special_tokens (strip_special_tokens x) = strip_special_tokens x"
proof (induction x rule: strip_special_tokens.induct)
  case 1
  then show ?case by simp
next
  case (2 c cs)
  show ?case
  proof (cases "c = CHR ''<''")
    case False
    with 2 show ?thesis by simp
  next
    case True
    show ?thesis
    proof (cases "match_token cs")
      case None
      with True 2 show ?thesis by (simp add: match_token_None_strip)
    next
      case (Some rest)
      with True 2 show ?thesis by simp
    qed
  qed
qed

theorem strip_special_tokens_idempotent_witness:
  "strip_special_tokens ''<<a>b> <pad>hi <> <x'' = ''b> hi <> <x'' \<and>
   strip_special_tokens (strip_special_tokens ''<<a>b> <pad>hi <> <x'') = ''b> hi <> <x''"
  using strip_special_tokens_idempotent [of "''<<a>b> <pad>hi <> <x''"]
  by (simp add: match_token_def)

subsection \<open>Evaluation aggregator\<close>

lemma ex_dropWhile: "(\<exists>x\<in>set (dropWhile P xs). \<not> P x) \<longleftrightarrow> (\<exists>x\<in>set xs. \<not> P x)"
  by (induction xs) auto

lemma split_words_nonempty:
  "split_words cur s \<noteq> [] \<longleftrightarrow> cur \<noteq> [] \<or> (\<exists>c\<in>set s. \<not> isspace c)"
  by (induction cur s rule: split_words.induct) auto

lemma py_strip_nonempty: "py_strip g \<noteq> [] \<longleftrightarrow> (\<exists>c\<in>set g. \<not> isspace c)"
proof -
  have "py_strip g \<noteq> [] \<longleftrightarrow> (\<exists>x\<in>set (dropWhile isspace g). \<not> isspace x)"
    by (simp add: py_strip_def dropWhile_eq_Nil_conv)
  then show ?thesis by (simp only: ex_dropWhile)
qed

lemma py_split_nonempty: "py_strip g \<noteq> [] \<Longrightarrow> py_split g \<noteq> []"
  by (simp add: py_split_def split_words_nonempty py_strip_nonempty)

text \<open>The distance of a sequence to itself is zero, so a prediction equal to its reference adds no error.\<close>

lemma editdistance_eval_same: "editdistance_eval xs xs = 0"
  by (induction xs) simp_all

lemma merge_ranks_all_some:
  assumes "\<forall>r\<in>set ranks. r < length Ps"
  shows "merge_ranks (map Some Ps) ranks (a, b) =
           Inr (a @ concat (map (\<lambda>r. map fst (Ps ! r)) ranks),
                b @ concat (map (\<lambda>r. map snd (Ps ! r)) ranks))"
  using assms by (induction ranks arbitrary: a b) simp_all

lemma concat_nth_upt: "concat (map (\<lambda>r. f (Ps ! r)) [0..<length Ps]) = concat (map f Ps)"
proof -
  have "map (\<lambda>r. f (Ps ! r)) [0..<length Ps] = map f (map (\<lambda>r. Ps ! r) [0..<length Ps])"
    by simp
  then show ?thesis by (simp only: map_nth)
qed

lemma merge_ranks_gathered:
  "merge_ranks (map Some Ps) [0..<length Ps] ([], []) =
     Inr (map fst (concat Ps), map snd (concat Ps))"
proof -
  have "merge_ranks (map Some Ps) [0..<length Ps] ([], []) =
          Inr ([] @ concat (map (\<lambda>r. map fst (Ps ! r)) [0..<length Ps]),
               [] @ concat (map (\<lambda>r. map snd (Ps ! r)) [0..<length Ps]))"
    by (rule merge_ranks_all_some) simp
  then show ?thesis by (simp only: concat_nth_upt append_Nil map_concat)
qed

lemma wer_loop_sums:
  "wer_loop ed ps (a, b) =
     (a + (\<Sum>(h, r)\<leftarrow>ps. ed (py_split h) (py_split r)),
      b + (\<Sum>(h, r)\<leftarrow>ps. length (py_split r)))"
  by (induction ps arbitrary: a b) auto

lemma gather_pairs_all:
  assumes "length outs = world_size" "global_rank < world_size"
  shows "gather_pairs world_size global_rank outs = Inr (map Some (map nonempty_pairs outs))"
proof (cases "world_size > 1")
  case True
  then show ?thesis by (simp add: gather_pairs_def all_gather_object_def)
next
  case False
  with assms have ws: "world_size = 1" and gr: "global_rank = 0" by auto
  with assms obtain out where "outs = [out]" by (cases outs) auto
  with ws gr show ?thesis by (simp add: gather_pairs_def)
qed

lemma words_positive:
  assumes "\<forall>(t, g)\<in>set P. py_strip g \<noteq> []" "P \<noteq> []"
  shows "0 < (\<Sum>(h, r)\<leftarrow>P. length (py_split r))"
proof -
  from assms obtain t g rest where P: "P = (t, g) # rest" by (cases P) auto
  with assms have "py_strip g \<noteq> []" by auto
  then have "py_split g \<noteq> []" by (rule py_split_nonempty)
  with P show ?thesis by simp
qed

lemma nonempty_pairs_kept: "\<forall>(t, g)\<in>set (concat (map nonempty_pairs outs)). py_strip g \<noteq> []"
  by (auto simp: nonempty_pairs_def)


text \<open>
  Claim C1. With one entry of \<open>outs\<close> per worker and outputs on every worker, the
  coordinating worker (global rank 0) concatenates the retained pairs of all workers in rank
  order, reports the corpus BLEU of the concatenation multiplied by the worker count, and
  reports as WER the total edit distance over whitespace-separated words divided by the total
  number of reference words, multiplied by the worker count. The division is defined
  whenever a pair is retained; with no retained pair it raises \<^verbatim>\<open>ZeroDivisionError\<close>.
  An exception of the BLEU computation is passed on. Every other worker reports zero for
  both metrics.
\<close>

theorem multi_validation_epoch_end_spec:
  assumes "length outs = world_size" and "0 < world_size"
    and "\<forall>outputs\<in>set outs. outputs \<noteq> []"
  shows "(let P = concat (map nonempty_pairs outs) in
          multi_validation_epoch_end corpus_bleu ed world_size 0 outs =
           (case corpus_bleu (map fst P) (map snd P) of
              Inl e \<Rightarrow> Inl e
            | Inr score \<Rightarrow>
                if P = [] then Inl ZeroDivisionError
                else Inr (Some (score * real world_size,
                      real (\<Sum>(h, r)\<leftarrow>P. ed (py_split h) (py_split r)) * real world_size /
                      real (\<Sum>(h, r)\<leftarrow>P. length (py_split r))))) \<and>
          (P \<noteq> [] \<longrightarrow> 0 < (\<Sum>(h, r)\<leftarrow>P. length (py_split r)))) \<and>
         (\<forall>global_rank. 0 < global_rank \<and> global_rank < world_size \<longrightarrow>
            multi_validation_epoch_end corpus_bleu ed world_size global_rank outs =
              Inr (Some (0, 0)))"
proof -
  define P where "P = concat (map nonempty_pairs outs)"
  define tg where "tg = map Some (map nonempty_pairs outs)"
  have ne: "(outs ! r = []) = False" if "r < world_size" for r
    using assms(1,3) that by simp
  have g: "gather_pairs world_size r outs = Inr tg" if "r < world_size" for r
    unfolding tg_def using assms(1) that by (rule gather_pairs_all)
  have m: "merge_ranks tg [0..<world_size] ([], []) = Inr (map fst P, map snd P)"
    unfolding tg_def P_def
    using merge_ranks_gathered [of "map nonempty_pairs outs"] assms(1) by simp
  have w: "wer_loop ed (zip (map fst P) (map snd P)) (0, 0) =
             ((\<Sum>(h, r)\<leftarrow>P. ed (py_split h) (py_split r)), (\<Sum>(h, r)\<leftarrow>P. length (py_split r)))"
    by (simp add: wer_loop_sums zip_map_fst_snd)
  have pos: "0 < (\<Sum>(h, r)\<leftarrow>P. length (py_split r))" if "P \<noteq> []"
    using nonempty_pairs_kept that unfolding P_def by (rule words_positive)
  have r0: "multi_validation_epoch_end corpus_bleu ed world_size 0 outs =
           (case corpus_bleu (map fst P) (map snd P) of
              Inl e \<Rightarrow> Inl e
            | Inr score \<Rightarrow>
                if P = [] then Inl ZeroDivisionError
                else Inr (Some (score * real world_size,
                      real (\<Sum>(h, r)\<leftarrow>P. ed (py_split h) (py_split r)) * real world_size /
                      real (\<Sum>(h, r)\<leftarrow>P. length (py_split r)))))"
  proof (cases "corpus_bleu (map fst P) (map snd P)")
    case (Inl e)
    then show ?thesis
      unfolding multi_validation_epoch_end_def Let_def ne [OF assms(2)] g [OF assms(2)]
      by (simp add: m)
  next
    case (Inr score)
    show ?thesis
    proof (cases "P = []")
      case True
      with Inr show ?thesis
        unfolding multi_validation_epoch_end_def Let_def ne [OF assms(2)] g [OF assms(2)]
        by (simp add: m w)
    next
      case False
      have "(\<Sum>(h, r)\<leftarrow>P. length (py_split r)) \<noteq> 0"
        using pos [OF False] by (rule gr_implies_not0)
      with False Inr show ?thesis
        unfolding multi_validation_epoch_end_def Let_def ne [OF assms(2)] g [OF assms(2)]
        by (simp add: m w)
    qed
  qed
  have rn: "multi_validation_epoch_end corpus_bleu ed world_size r outs = Inr (Some (0, 0))"
    if "0 < r" "r < world_size" for r
    using that(1)
    unfolding multi_validation_epoch_end_def Let_def ne [OF that(2)] g [OF that(2)] by simp
  from r0 pos rn show ?thesis unfolding P_def Let_def by blast
qed

theorem multi_validation_epoch_end_spec_witness:
  "length [[\<lparr>loss = 0, translations_list = [''a'', ''hello there'', ''b''],
              ground_truths = ['''', ''hello world'', ''  '']\<rparr>],
           [\<lparr>loss = 0, translations_list = [''a b c''], ground_truths = [''a c'']\<rparr>]] = (2::nat) \<and>
   (0::nat) < 2 \<and>
   multi_validation_epoch_end (\<lambda>h r. Inr 50) editdistance_eval 2 0
     [[\<lparr>loss = 0, translations_list = [''a'', ''hello there'', ''b''],
        ground_truths = ['''', ''hello world'', ''  '']\<rparr>],
      [\<lparr>loss = 0, translations_list = [''a b c''], ground_truths = [''a c'']\<rparr>]] =
     Inr (Some (100, 1)) \<and>
   multi_validation_epoch_end (\<lambda>h r. Inr 50) editdistance_eval 2 1
     [[\<lparr>loss = 0, translations_list = [''a'', ''hello there'', ''b''],
        ground_truths = ['''', ''hello world'', ''  '']\<rparr>],
      [\<lparr>loss = 0, translations_list = [''a b c''], ground_truths = [''a c'']\<rparr>]] =
     Inr (Some (0, 0))"
proof -
  let ?outs = "[[\<lparr>loss = 0, translations_list = [''a'', ''hello there'', ''b''],
                   ground_truths = ['''', ''hello world'', ''  '']\<rparr>],
                [\<lparr>loss = 0, translations_list = [''a b c''], ground_truths = [''a c'']\<rparr>]]"
  have h1: "length ?outs = (2::nat)" by simp
  have h2: "(0::nat) < 2" by simp
  have h3: "\<forall>outputs\<in>set ?outs. outputs \<noteq> []" by simp
  from multi_validation_epoch_end_spec [OF h1 h2 h3, of "\<lambda>h r. Inr 50" editdistance_eval]
  show ?thesis
    by (simp add: multi_validation_epoch_end_def gather_pairs_def nonempty_pairs_def
        all_pairs_def py_strip_def isspace_def all_gather_object_def py_split_def upt_rec)
qed



subsection \<open>Forward pipeline and loss\<close>

lemma forward_with_transcript:
  assumes "(input_signal \<noteq> None \<and> input_signal_length \<noteq> None) \<noteq>
           (processed_signal \<noteq> None \<and> processed_signal_length \<noteq> None)"
  shows "\<exists>encoded_len enc_states enc_mask.
           forward m st input_signal input_signal_length processed_signal
             processed_signal_length (Some ids) (Some lens) =
             Inr (Some (log_softmax m
                          (transf_decoder m ids (lens_to_mask lens (shape1 ids)) enc_states
                             enc_mask)),
                  encoded_len, enc_states, enc_mask)"
  using assms by (simp add: forward_def Let_def split: prod.splits)

lemma forward_ValueError_iff:
  "forward m st input_signal input_signal_length processed_signal processed_signal_length
     target target_length = Inl ValueError \<longleftrightarrow>
   ((input_signal \<noteq> None \<and> input_signal_length \<noteq> None) =
    (processed_signal \<noteq> None \<and> processed_signal_length \<noteq> None))"
  by (simp add: forward_def Let_def split: prod.splits option.splits)

lemma shift_rows:
  "length (butlast row) = length row - 1 \<and> length (tl row) = length row - 1 \<and>
   (\<forall>i. i + 1 < length row \<longrightarrow> butlast row ! i = row ! i \<and> tl row ! i = row ! (i + 1))"
  by (simp add: nth_butlast nth_tl)

text \<open>
  Claim C7. For a transcript matrix with rows of length \<open>n\<close>, the decoder inputs are the
  positions \<open>0, \<dots>, n - 2\<close> of every row and the labels are the positions \<open>1, \<dots>, n - 1\<close>:
  label \<open>i\<close> is the transcript token \<open>i + 1\<close>, the one after decoder input \<open>i\<close>. In
  \<^verbatim>\<open>compute_audio_loss\<close> and in \<^verbatim>\<open>validation_step\<close> the decoder runs on these inputs and
  the loss is taken between its log-probabilities and these labels.
\<close>

theorem teacher_forcing_shift:
  "(let input_ids = map butlast (transcript b); labels = map tl (transcript b) in
      length input_ids = length (transcript b) \<and> length labels = length (transcript b) \<and>
      (\<forall>r<length (transcript b).
          let row = transcript b ! r in
          length (input_ids ! r) = length row - 1 \<and> length (labels ! r) = length row - 1 \<and>
          (\<forall>i. i + 1 < length row \<longrightarrow>
                input_ids ! r ! i = row ! i \<and> labels ! r ! i = row ! (i + 1))) \<and>
      (\<exists>encoded_len enc_states enc_mask.
          let log_probs =
                Some (log_softmax m
                        (transf_decoder m input_ids
                           (lens_to_mask (transcript_len b) (shape1 input_ids)) enc_states
                           enc_mask))
          in forward m st (Some (signal b)) (Some (signal_len b)) None None (Some input_ids)
               (Some (transcript_len b)) =
               Inr (log_probs, encoded_len, enc_states, enc_mask) \<and>
             compute_audio_loss m st (Some b) = Inr (transf_loss m log_probs labels)) \<and>
      (\<exists>enc_states enc_mask.
          let log_probs =
                Some (log_softmax m
                        (transf_decoder m input_ids
                           (lens_to_mask (transcript_len b) (shape1 input_ids)) enc_states
                           enc_mask))
          in validation_step m st b =
               (case beam_search m enc_states enc_mask (Some (map (take 5) input_ids)) of
                  Inl e \<Rightarrow> Inl e
                | Inr beam_hypotheses \<Rightarrow>
                    Inr \<lparr>loss = transf_loss m log_probs labels,
                         translations_list =
                           map strip_special_tokens (map (ids_to_text m) beam_hypotheses),
                         ground_truths =
                           map strip_special_tokens (map (ids_to_text m) (transcript b))\<rparr>)))"
proof -
  define input_ids where "input_ids = map butlast (transcript b)"
  define labels where "labels = map tl (transcript b)"
  define dec_mask where "dec_mask = lens_to_mask (transcript_len b) (shape1 input_ids)"
  have 1: "length input_ids = length (transcript b)" "length labels = length (transcript b)"
    by (simp_all add: input_ids_def labels_def)
  have 2: "length (input_ids ! r) = length (transcript b ! r) - 1 \<and>
           length (labels ! r) = length (transcript b ! r) - 1 \<and>
           (\<forall>i. i + 1 < length (transcript b ! r) \<longrightarrow>
                input_ids ! r ! i = transcript b ! r ! i \<and>
                labels ! r ! i = transcript b ! r ! (i + 1))"
    if "r < length (transcript b)" for r
    using that shift_rows [of "transcript b ! r"] by (simp add: input_ids_def labels_def)
  have fwd: "\<exists>encoded_len enc_states enc_mask.
           forward m st s1 l1 s2 l2 (Some input_ids) (Some (transcript_len b)) =
             Inr (Some (log_softmax m (transf_decoder m input_ids dec_mask enc_states enc_mask)),
                  encoded_len, enc_states, enc_mask)"
    if "(s1 \<noteq> None \<and> l1 \<noteq> None) \<noteq> (s2 \<noteq> None \<and> l2 \<noteq> None)" for s1 l1 s2 l2
    unfolding dec_mask_def using that by (rule forward_with_transcript)
  from fwd [of "Some (signal b)" "Some (signal_len b)" None None]
  obtain el es em where
    f: "forward m st (Some (signal b)) (Some (signal_len b)) None None (Some input_ids)
          (Some (transcript_len b)) =
        Inr (Some (log_softmax m (transf_decoder m input_ids dec_mask es em)), el, es, em)"
    by auto
  then have c: "compute_audio_loss m st (Some b) =
      Inr (transf_loss m (Some (log_softmax m (transf_decoder m input_ids dec_mask es em))) labels)"
    by (simp add: compute_audio_loss_def input_ids_def [symmetric] labels_def [symmetric])
  have 3: "\<exists>encoded_len enc_states enc_mask.
          forward m st (Some (signal b)) (Some (signal_len b)) None None (Some input_ids)
               (Some (transcript_len b)) =
               Inr (Some (log_softmax m (transf_decoder m input_ids dec_mask enc_states enc_mask)),
                    encoded_len, enc_states, enc_mask) \<and>
          compute_audio_loss m st (Some b) =
            Inr (transf_loss m
                   (Some (log_softmax m (transf_decoder m input_ids dec_mask enc_states enc_mask)))
                   labels)"
    using f c by blast
  have 4: "\<exists>enc_states enc_mask.
          validation_step m st b =
               (case beam_search m enc_states enc_mask (Some (map (take 5) input_ids)) of
                  Inl e \<Rightarrow> Inl e
                | Inr beam_hypotheses \<Rightarrow>
                    Inr \<lparr>loss = transf_loss m
                           (Some (log_softmax m
                              (transf_decoder m input_ids dec_mask enc_states enc_mask))) labels,
                         translations_list =
                           map strip_special_tokens (map (ids_to_text m) beam_hypotheses),
                         ground_truths =
                           map strip_special_tokens (map (ids_to_text m) (transcript b))\<rparr>)"
  proof (cases "dali_processed b")
    case True
    from fwd [of None None "Some (signal b)" "Some (signal_len b)"]
    obtain el' es' em' where
      "forward m st None None (Some (signal b)) (Some (signal_len b)) (Some input_ids)
          (Some (transcript_len b)) =
        Inr (Some (log_softmax m (transf_decoder m input_ids dec_mask es' em')), el', es', em')"
      by auto
    with True have "validation_step m st b =
               (case beam_search m es' em' (Some (map (take 5) input_ids)) of
                  Inl e \<Rightarrow> Inl e
                | Inr beam_hypotheses \<Rightarrow>
                    Inr \<lparr>loss = transf_loss m
                           (Some (log_softmax m
                              (transf_decoder m input_ids dec_mask es' em'))) labels,
                         translations_list =
                           map strip_special_tokens (map (ids_to_text m) beam_hypotheses),
                         ground_truths =
                           map strip_special_tokens (map (ids_to_text m) (transcript b))\<rparr>)"
      by (simp add: validation_step_def input_ids_def [symmetric] labels_def [symmetric]
          split: sum.splits)
    then show ?thesis by blast
  next
    case False
    with f have "validation_step m st b =
               (case beam_search m es em (Some (map (take 5) input_ids)) of
                  Inl e \<Rightarrow> Inl e
                | Inr beam_hypotheses \<Rightarrow>
                    Inr \<lparr>loss = transf_loss m
                           (Some (log_softmax m
                              (transf_decoder m input_ids dec_mask es em))) labels,
                         translations_list =
                           map strip_special_tokens (map (ids_to_text m) beam_hypotheses),
                         ground_truths =
                           map strip_special_tokens (map (ids_to_text m) (transcript b))\<rparr>)"
      by (simp add: validation_step_def input_ids_def [symmetric] labels_def [symmetric]
          split: sum.splits)
    then show ?thesis by blast
  qed
  from 1 2 3 4 show ?thesis
    unfolding Let_def input_ids_def [symmetric] labels_def [symmetric] dec_mask_def [symmetric]
    by blast
qed

theorem teacher_forcing_shift_witness:
  "map butlast [[1, 2, 0, 4 :: int]] = [[1, 2, 0]] \<and>
   map tl [[1, 2, 0, 4 :: int]] = [[2, 0, 4]] \<and>
   compute_audio_loss example_modules example_state
     (Some \<lparr>signal = [''a''], signal_len = [1], transcript = [[1, 2, 0, 4]],
            transcript_len = [4], dali_processed = False\<rparr>) = Inr 3 \<and>
   validation_step example_modules example_state
     \<lparr>signal = [''a''], signal_len = [1], transcript = [[1, 2, 0, 4]],
      transcript_len = [4], dali_processed = False\<rparr> =
     Inr \<lparr>loss = 3, translations_list = [''ab''], ground_truths = [''ababab'']\<rparr>"
  using teacher_forcing_shift
    [of "\<lparr>signal = [''a''], signal_len = [1], transcript = [[1, 2, 0, 4]],
           transcript_len = [4], dali_processed = False\<rparr>" example_modules example_state]
  by (simp add: compute_audio_loss_def validation_step_def forward_def example_modules_def
      example_state_def match_token_def)

subsection \<open>Transcription\<close>

lemma batches_Nil: "batches n [] = []"
  by (simp add: batches.simps)

lemma batches_Cons:
  "0 < n \<Longrightarrow> xs \<noteq> [] \<Longrightarrow> batches n xs = take n xs # batches n (drop n xs)"
  by (subst batches.simps) simp

lemmas state_defs =
  transcribe_def transcribe_body_def transcribe_finally_def inference_setup_def train_def
  eval_mode_def encoder_freeze_def encoder_unfreeze_def transf_decoder_freeze_def
  transf_decoder_unfreeze_def setup_transcribe_dataloader_def decode_batch_def forward_def
  lens_to_mask_def example_modules_def example_state_def WARNING_def batches_Nil batches_Cons
  upt_rec

text \<open>
  Claim C3. \<^verbatim>\<open>forward\<close> raises the invalid-argument error exactly when the raw signal
  pair and the processed signal pair are both supplied or both missing, whatever the
  submodules are: nothing is computed before. \<^verbatim>\<open>transcribe\<close>, called as its contract
  says with a non-empty path list, raises it when both flags are true, and leaves the model
  state as it was.
\<close>

theorem invalid_argument_spec:
  "(forward m st input_signal input_signal_length processed_signal processed_signal_length
      target target_length = Inl ValueError \<longleftrightarrow>
    ((input_signal \<noteq> None \<and> input_signal_length \<noteq> None) =
     (processed_signal \<noteq> None \<and> processed_signal_length \<noteq> None))) \<and>
   (paths \<noteq> [] \<and> logprobs \<and> return_hypotheses \<longrightarrow>
      transcribe m st (Some paths) batch_size logprobs return_hypotheses = (Inl ValueError, st))"
  by (simp add: forward_ValueError_iff transcribe_def)

theorem invalid_argument_spec_witness:
  "forward example_modules example_state (Some [''a'']) (Some [1]) (Some [''a'']) (Some [1])
     None None = Inl ValueError \<and>
   forward example_modules example_state None None None None None None = Inl ValueError \<and>
   forward example_modules example_state (Some [''a'']) (Some [1]) None None None None =
     Inr (None, [1], [''a''], [[True, False]]) \<and>
   transcribe example_modules example_state (Some [''a.wav'']) 4 True True =
     (Inl ValueError, example_state)"
  using invalid_argument_spec
    [where m = example_modules and st = example_state and input_signal = "Some [''a'']"
       and input_signal_length = "Some [1]" and processed_signal = "Some [''a'']"
       and processed_signal_length = "Some [1]" and target = None and target_length = None
       and paths = "[''a.wav'']" and logprobs = True and return_hypotheses = True
       and batch_size = 4]
  by (simp add: state_defs)

text \<open>
  Claim C10. For a missing or an empty path list \<^verbatim>\<open>transcribe\<close> and its alias
  \<^verbatim>\<open>translate\<close> return the empty dictionary, which is not a list of strings, and the
  model state is untouched, whatever the flags and the batch size.
\<close>

theorem transcribe_no_files:
  "transcribe m st None batch_size logprobs return_hypotheses = (Inr EmptyDict, st) \<and>
   transcribe m st (Some []) batch_size logprobs return_hypotheses = (Inr EmptyDict, st) \<and>
   translate m st None batch_size logprobs return_hypotheses = (Inr EmptyDict, st) \<and>
   translate m st (Some []) batch_size logprobs return_hypotheses = (Inr EmptyDict, st) \<and>
   (\<forall>hypotheses. EmptyDict \<noteq> Hypotheses hypotheses)"
  by (simp add: transcribe_def translate_def)

theorem transcribe_no_files_witness:
  "transcribe example_modules example_state None 4 True True = (Inr EmptyDict, example_state) \<and>
   transcribe example_modules example_state (Some []) 4 False False =
     (Inr EmptyDict, example_state) \<and>
   translate example_modules example_state (Some []) 4 False False =
     (Inr EmptyDict, example_state) \<and>
   EmptyDict \<noteq> Hypotheses []"
  using transcribe_no_files [of example_modules example_state 4 True True]
    transcribe_no_files [of example_modules example_state 4 False False]
  by simp

lemma transcribe_finally_setup:
  "transcribe_finally (training st) (dither st) (pad_to st) (verbosity (inference_setup st))
     ((inference_setup st)\<lparr>verbosity := WARNING\<rparr>) =
   st\<lparr>encoder_frozen := \<not> training st, decoder_frozen := \<not> training st\<rparr>"
  by (cases "training st")
     (simp_all add: transcribe_finally_def inference_setup_def train_def eval_mode_def
        encoder_freeze_def encoder_unfreeze_def transf_decoder_freeze_def
        transf_decoder_unfreeze_def)

lemma transcribe_unfold:
  assumes "paths \<noteq> []" and "\<not> (return_hypotheses \<and> logprobs)"
  shows "transcribe m st (Some paths) batch_size logprobs return_hypotheses =
           (case transcribe_body m ((inference_setup st)\<lparr>verbosity := WARNING\<rparr>) paths
                   batch_size return_hypotheses of
              Inl e \<Rightarrow>
                (Inl e, st\<lparr>encoder_frozen := \<not> training st, decoder_frozen := \<not> training st\<rparr>)
            | Inr hypotheses \<Rightarrow>
                (Inr (Hypotheses hypotheses),
                 st\<lparr>encoder_frozen := \<not> training st, decoder_frozen := \<not> training st\<rparr>))"
proof -
  from assms(2) have c: "(return_hypotheses \<and> logprobs) = False" by simp
  show ?thesis
    unfolding transcribe_def Let_def c transcribe_finally_setup
    using assms(1) by (simp split: sum.splits)
qed

text \<open>
  Claim C4. Every call of \<^verbatim>\<open>transcribe\<close> with a non-empty path list ends with the
  training-mode flag, the dither value, the padding value and the logging verbosity it
  started with, on success and on every exception. When both flags are true the call raises
  with the whole state unchanged. Otherwise the encoder and the decoder end unfrozen when the
  model was in training mode and frozen when it was not, and the result of the \<^verbatim>\<open>try\<close>
  block leaves the call as it is: an exception raised while loading or decoding a batch
  propagates to the caller, a list of hypotheses is returned.
\<close>

theorem transcribe_restores_state:
  assumes "paths \<noteq> []"
    and "transcribe m st (Some paths) batch_size logprobs return_hypotheses = (r, st')"
  shows "training st' = training st \<and> dither st' = dither st \<and> pad_to st' = pad_to st \<and>
         verbosity st' = verbosity st \<and>
         (if return_hypotheses \<and> logprobs then r = Inl ValueError \<and> st' = st
          else encoder_frozen st' = (\<not> training st) \<and> decoder_frozen st' = (\<not> training st) \<and>
               (\<forall>e. transcribe_body m ((inference_setup st)\<lparr>verbosity := WARNING\<rparr>) paths
                       batch_size return_hypotheses = Inl e \<longrightarrow> r = Inl e) \<and>
               (\<forall>hypotheses.
                   transcribe_body m ((inference_setup st)\<lparr>verbosity := WARNING\<rparr>) paths
                     batch_size return_hypotheses = Inr hypotheses \<longrightarrow>
                   r = Inr (Hypotheses hypotheses)))"
proof (cases "return_hypotheses \<and> logprobs")
  case True
  with assms show ?thesis by (simp add: transcribe_def)
next
  case False
  from assms(2) transcribe_unfold [OF assms(1) False, of m st batch_size]
  show ?thesis using False by (auto split: sum.splits)
qed

theorem transcribe_restores_state_witness:
  "[''a.wav'', ''missing.wav'', ''c.wav''] \<noteq> [] \<and>
   transcribe example_modules (example_state\<lparr>training := True\<rparr>)
     (Some [''a.wav'', ''missing.wav'', ''c.wav'']) 1 False False =
     (Inl (External ''FileNotFoundError''), example_state\<lparr>training := True\<rparr>) \<and>
   transcribe_body example_modules
     ((inference_setup (example_state\<lparr>training := True\<rparr>))\<lparr>verbosity := WARNING\<rparr>)
     [''a.wav'', ''missing.wav'', ''c.wav''] 1 False = Inl (External ''FileNotFoundError'')"
proof -
  have h1: "[''a.wav'', ''missing.wav'', ''c.wav''] \<noteq> []" by simp
  have h2: "transcribe example_modules (example_state\<lparr>training := True\<rparr>)
     (Some [''a.wav'', ''missing.wav'', ''c.wav'']) 1 False False =
     (Inl (External ''FileNotFoundError''), example_state\<lparr>training := True\<rparr>)"
    by (simp add: state_defs)
  have h3: "transcribe_body example_modules
     ((inference_setup (example_state\<lparr>training := True\<rparr>))\<lparr>verbosity := WARNING\<rparr>)
     [''a.wav'', ''missing.wav'', ''c.wav''] 1 False = Inl (External ''FileNotFoundError'')"
    by (simp add: state_defs)
  from transcribe_restores_state [OF h1 h2] h1 h2 h3 show ?thesis by simp
qed

text \<open>
  The freeze state is not restored in general: a model in evaluation mode whose encoder and
  decoder are not frozen has both frozen after a successful call.
\<close>

theorem freeze_state_counterexample:
  "fst (transcribe example_modules example_state (Some [''a.wav'']) 4 False False) =
     Inr (Hypotheses [''ab<pad>'']) \<and>
   encoder_frozen (snd (transcribe example_modules example_state (Some [''a.wav'']) 4 False False))
     \<noteq> encoder_frozen example_state \<and>
   decoder_frozen (snd (transcribe example_modules example_state (Some [''a.wav'']) 4 False False))
     \<noteq> decoder_frozen example_state"
  by (simp add: state_defs)

lemma transcribe_loop_ok:
  assumes "\<forall>b\<in>set bs. decode_batch m st b = Inr (R b)"
  shows "transcribe_loop m st False bs acc =
           Inr (acc @ concat (map (\<lambda>b. map (ids_to_text m) (R b)) bs))"
  using assms by (induction bs arbitrary: acc) simp_all

lemma length_concat_batches:
  "0 < n \<Longrightarrow> (\<forall>b\<in>set (batches n xs). length (f b) = length b) \<Longrightarrow>
   length (concat (map f (batches n xs))) = length xs"
proof (induction n xs rule: batches.induct)
  case (1 n xs)
  show ?case
  proof (cases "xs = []")
    case True
    then show ?thesis by (simp add: batches_Nil)
  next
    case False
    note b = batches_Cons [OF 1(2) False]
    have "take n xs \<in> set (batches n xs)"
      by (subst b) simp
    moreover have "set (batches n (drop n xs)) \<subseteq> set (batches n xs)"
      by (subst b) auto
    ultimately have hd: "length (f (take n xs)) = length (take n xs)"
      and tl: "\<forall>b\<in>set (batches n (drop n xs)). length (f b) = length b"
      using 1(3) by blast+
    from 1(2) False have "\<not> (n = 0 \<or> xs = [])" by simp
    from 1(1) [OF this 1(2) tl]
    have "length (concat (map f (batches n (drop n xs)))) = length (drop n xs)" .
    with hd show ?thesis unfolding b by simp
  qed
qed

lemma concat_batches_nth:
  "0 < n \<Longrightarrow> (\<forall>b\<in>set (batches n xs). length (f b) = length b) \<Longrightarrow> i < length xs \<Longrightarrow>
   concat (map f (batches n xs)) ! i = f (batches n xs ! (i div n)) ! (i mod n) \<and>
   batches n xs ! (i div n) ! (i mod n) = xs ! i \<and>
   i div n < length (batches n xs) \<and> i mod n < length (batches n xs ! (i div n))"
proof (induction n xs arbitrary: i rule: batches.induct)
  case (1 n xs)
  from 1(4) have ne: "xs \<noteq> []" by auto
  note pos = 1(2)
  note b = batches_Cons [OF pos ne]
  have "take n xs \<in> set (batches n xs)"
    by (subst b) simp
  moreover have "set (batches n (drop n xs)) \<subseteq> set (batches n xs)"
    by (subst b) auto
  ultimately have hd: "length (f (take n xs)) = length (take n xs)"
    and tl: "\<forall>b\<in>set (batches n (drop n xs)). length (f b) = length b"
    using 1(3) by blast+
  show ?case
  proof (cases "i < n")
    case True
    with 1(4) hd have "i < length (f (take n xs))" by simp
    with True 1(4) show ?thesis unfolding b by (simp add: nth_append)
  next
    case False
    then have ge: "n \<le> i" by simp
    with 1(4) have lt: "i - n < length (drop n xs)" by simp
    from pos ne have "\<not> (n = 0 \<or> xs = [])" by simp
    from 1(1) [OF this pos tl lt]
    have ih: "concat (map f (batches n (drop n xs))) ! (i - n) =
                f (batches n (drop n xs) ! ((i - n) div n)) ! ((i - n) mod n) \<and>
              batches n (drop n xs) ! ((i - n) div n) ! ((i - n) mod n) = drop n xs ! (i - n) \<and>
              (i - n) div n < length (batches n (drop n xs)) \<and>
              (i - n) mod n < length (batches n (drop n xs) ! ((i - n) div n))" .
    from ge pos have d: "i div n = Suc ((i - n) div n)"
      by (simp add: le_div_geq)
    from ge have md: "(i - n) mod n = i mod n"
      by (simp add: le_mod_geq)
    from ge 1(4) have len: "length (f (take n xs)) = n" using hd by simp
    from ge 1(4) have dr: "drop n xs ! (i - n) = xs ! i" by simp
    have "concat (map f (batches n xs)) ! i = concat (map f (batches n (drop n xs))) ! (i - n)"
      unfolding b using ge len by (simp add: nth_append)
    with ih d md dr show ?thesis unfolding b by simp
  qed
qed

text \<open>
  Claim C5. Given a non-empty list of files, a positive batch size and both flags false,
  when every batch of the loader is decoded with one hypothesis row per file,
  \<^verbatim>\<open>transcribe\<close> returns a list with exactly one text per input file, in input order:
  result \<open>i\<close> is the tokenizer's text of the row that belongs to file \<open>i\<close> in the batch
  holding that file. The texts are returned as the tokenizer writes them.
\<close>

theorem transcribe_one_result_per_file:
  assumes "paths \<noteq> []" and "0 < batch_size"
    and "\<forall>b\<in>set (batches (nat (min batch_size (int (length paths)))) paths).
           decode_batch m ((inference_setup st)\<lparr>verbosity := WARNING\<rparr>) b = Inr (R b) \<and>
           length (R b) = length b"
  shows "\<exists>hypotheses.
           fst (transcribe m st (Some paths) batch_size False False) =
             Inr (Hypotheses hypotheses) \<and>
           length hypotheses = length paths \<and>
           (\<forall>i<length paths.
              let k = nat (min batch_size (int (length paths)));
                  b = batches k paths ! (i div k)
              in b ! (i mod k) = paths ! i \<and>
                 hypotheses ! i = ids_to_text m (R b ! (i mod k)))"
proof -
  define k where "k = nat (min batch_size (int (length paths)))"
  define st1 where "st1 = (inference_setup st)\<lparr>verbosity := WARNING\<rparr>"
  define f where "f = (\<lambda>b. map (ids_to_text m) (R b))"
  define hs where "hs = concat (map f (batches k paths))"
  from assms(1) have "0 < int (length paths)" by simp
  with assms(2) have m: "0 < min batch_size (int (length paths))" by simp
  then have k: "0 < k" by (simp add: k_def)
  from m have "\<not> min batch_size (int (length paths)) \<le> 0" by linarith
  then have dl: "setup_transcribe_dataloader paths batch_size = Inr (batches k paths)"
    by (simp add: setup_transcribe_dataloader_def k_def Let_def)
  from assms(3) have dec: "\<forall>b\<in>set (batches k paths). decode_batch m st1 b = Inr (R b)"
    and len: "\<forall>b\<in>set (batches k paths). length (f b) = length b"
    by (simp_all add: k_def st1_def f_def)
  have body: "transcribe_body m st1 paths batch_size False = Inr hs"
    unfolding transcribe_body_def dl hs_def f_def
    using transcribe_loop_ok [OF dec, of "[]"] by simp
  have "transcribe m st (Some paths) batch_size False False =
          (Inr (Hypotheses hs),
           st\<lparr>encoder_frozen := \<not> training st, decoder_frozen := \<not> training st\<rparr>)"
    using transcribe_unfold [OF assms(1), of False False m st batch_size] body
    by (simp add: st1_def)
  then have 1: "fst (transcribe m st (Some paths) batch_size False False) = Inr (Hypotheses hs)"
    by simp
  have 2: "length hs = length paths"
    unfolding hs_def using k len by (rule length_concat_batches)
  have 3: "batches k paths ! (i div k) ! (i mod k) = paths ! i \<and>
           hs ! i = ids_to_text m (R (batches k paths ! (i div k)) ! (i mod k))"
    if i: "i < length paths" for i
  proof -
    from concat_batches_nth [OF k len i]
    have a: "hs ! i = f (batches k paths ! (i div k)) ! (i mod k)"
      and c: "batches k paths ! (i div k) ! (i mod k) = paths ! i"
      and d: "i div k < length (batches k paths)"
      and e: "i mod k < length (batches k paths ! (i div k))"
      by (simp_all add: hs_def)
    from d have "batches k paths ! (i div k) \<in> set (batches k paths)" by simp
    with assms(3) have "length (R (batches k paths ! (i div k))) =
                        length (batches k paths ! (i div k))"
      by (simp add: k_def)
    with e have "i mod k < length (R (batches k paths ! (i div k)))" by simp
    with a c show ?thesis by (simp add: f_def)
  qed
  from 1 2 3 show ?thesis unfolding k_def Let_def by blast
qed

theorem transcribe_one_result_per_file_witness:
  "[''a.wav'', ''b.wav''] \<noteq> [] \<and> (0::int) < 4 \<and>
   batches (nat (min 4 (int (length [''a.wav'', ''b.wav''])))) [''a.wav'', ''b.wav''] =
     [[''a.wav'', ''b.wav'']] \<and>
   decode_batch example_modules ((inference_setup example_state)\<lparr>verbosity := WARNING\<rparr>)
     [''a.wav'', ''b.wav''] = Inr [[1, 0], [1, 0]] \<and>
   fst (transcribe example_modules example_state (Some [''a.wav'', ''b.wav'']) 4 False False) =
     Inr (Hypotheses [ids_to_text example_modules [1, 0], ids_to_text example_modules [1, 0]])"
proof -
  have h1: "[''a.wav'', ''b.wav''] \<noteq> []" by simp
  have h2: "(0::int) < 4" by simp
  have b: "batches (nat (min 4 (int (length [''a.wav'', ''b.wav''])))) [''a.wav'', ''b.wav''] =
             [[''a.wav'', ''b.wav'']]"
    by (simp add: batches_Nil batches_Cons)
  have d: "decode_batch example_modules ((inference_setup example_state)\<lparr>verbosity := WARNING\<rparr>)
             [''a.wav'', ''b.wav''] = Inr [[1, 0], [1, 0]]"
    by (simp add: state_defs)
  have h3: "\<forall>b\<in>set (batches (nat (min 4 (int (length [''a.wav'', ''b.wav'']))))
                     [''a.wav'', ''b.wav'']).
       decode_batch example_modules ((inference_setup example_state)\<lparr>verbosity := WARNING\<rparr>) b =
         Inr (map (\<lambda>f. [1, 0]) b) \<and>
       length (map (\<lambda>f. [1, 0]) b) = length b"
    unfolding b using d by simp
  from transcribe_one_result_per_file [OF h1 h2 h3]
  obtain hs where
    a: "fst (transcribe example_modules example_state (Some [''a.wav'', ''b.wav'']) 4 False False) =
          Inr (Hypotheses hs)"
    and l: "length hs = length [''a.wav'', ''b.wav'']"
    and n: "\<forall>i<length [''a.wav'', ''b.wav''].
              let k = nat (min 4 (int (length [''a.wav'', ''b.wav''])));
                  b = batches k [''a.wav'', ''b.wav''] ! (i div k)
              in b ! (i mod k) = [''a.wav'', ''b.wav''] ! i \<and>
                 hs ! i = ids_to_text example_modules (map (\<lambda>f. [1, 0]) b ! (i mod k))"
    by blast
  have b2: "batches 2 [''a.wav'', ''b.wav''] = [[''a.wav'', ''b.wav'']]"
    by (simp add: batches_Nil batches_Cons)
  from n have "hs ! 0 = ids_to_text example_modules [1, 0]"
    and "hs ! 1 = ids_to_text example_modules [1, 0]"
    by (simp_all add: Let_def b2)
  with l have "hs = [ids_to_text example_modules [1, 0], ids_to_text example_modules [1, 0]]"
    by (cases hs; cases "tl hs") auto
  with a h1 h2 b d show ?thesis by simp
qed

lemma length_strip_special_tokens: "length (strip_special_tokens s) \<le> length s"
proof (induction s rule: strip_special_tokens.induct)
  case 1
  then show ?case by simp
next
  case (2 c cs)
  show ?case
  proof (cases "c = CHR ''<''")
    case False
    with 2 show ?thesis by simp
  next
    case True
    show ?thesis
    proof (cases "match_token cs")
      case None
      with True 2 show ?thesis by simp
    next
      case (Some rest)
      with True 2 match_token_shorter [OF Some] show ?thesis by simp
    qed
  qed
qed

lemma has_special_token_iff: "has_special_token s \<longleftrightarrow> strip_special_tokens s \<noteq> s"
proof (induction s rule: strip_special_tokens.induct)
  case 1
  then show ?case by simp
next
  case (2 c cs)
  show ?case
  proof (cases "c = CHR ''<''")
    case False
    with 2 show ?thesis by simp
  next
    case True
    show ?thesis
    proof (cases "match_token cs")
      case None
      with True 2 show ?thesis by simp
    next
      case (Some rest)
      from length_strip_special_tokens [of rest] match_token_shorter [OF Some]
      have "length (strip_special_tokens rest) < length (c # cs)" by simp
      then have "strip_special_tokens rest \<noteq> c # cs" by auto
      with True Some show ?thesis by simp
    qed
  qed
qed

text \<open>
  \<^verbatim>\<open>transcribe\<close> does not strip special tokens: with two files and batch size 4 the two
  results of the example configuration contain the token \<^verbatim>\<open><pad>\<close>.
\<close>

theorem special_tokens_counterexample:
  "fst (transcribe example_modules example_state (Some [''a.wav'', ''b.wav'']) 4 False False) =
     Inr (Hypotheses [''ab<pad>'', ''ab<pad>'']) \<and>
   has_special_token ''ab<pad>'' \<and>
   strip_special_tokens ''ab<pad>'' \<noteq> ''ab<pad>''"
  by (simp add: state_defs match_token_def)

end
